theory Spec2Isabelle
  imports Main
begin

section \<open>The syntax tree read by \<open>CodeParser\<close>\<close>

text \<open>
  \<open>code_parser.py\<close> walks the tree that \<open>astroid.parse\<close> returns. The tree is modelled
  by the node kinds the parser tests with \<open>isinstance\<close> and by the fields it reads;
  fields it never reads are left out.

  Expressions: the parser looks at \<open>Call\<close> (\<open>func\<close>, \<open>args\<close>), \<open>Attribute\<close>
  (\<open>expr\<close>, \<open>attrname\<close>) and \<open>Name\<close> (\<open>name\<close>). \<open>Const\<close> stands for a literal and
  carries its source text.
\<close>

datatype expr =
    Name string
  | Const string
  | Attribute expr string
  | Call expr "expr list"

text \<open>
  What \<open>next(target.infer(), None)\<close> gives for an assignment target. The inference
  engine belongs to astroid, so its outcome is data of the tree: the generator raises
  \<open>InferenceError\<close>, is exhausted (then \<open>next\<close> returns \<open>None\<close>), yields
  \<open>Uninferable\<close>, or yields a node whose \<open>pytype()\<close> is the given string.
\<close>

datatype inference =
    InferRaises
  | InferNothing
  | Uninferable
  | Inferred string

datatype target =
    AssignName string
  | AssignAttr expr string inference
  | TupleTarget "target list"
  | SubscriptTarget

text \<open>
  Statements. \<open>FunctionDef name n body\<close> carries \<open>len(node.args.args)\<close> as \<open>n\<close>
  (\<open>AsyncFunctionDef\<close>, \<open>AsyncFor\<close> and \<open>AsyncWith\<close> are subclasses of
  \<open>FunctionDef\<close>, \<open>For\<close> and \<open>With\<close> in astroid and are the same constructors here).
  \<open>Try body handlers orelse finalbody\<close> is astroid's \<open>Try\<close> node; \<open>TryStar\<close>, with
  the same fields, is its node for \<open>try ... except* ...\<close> and a class of its own.
  \<open>OtherStmt\<close> is a statement of any other kind; the parser reads nothing of it.
\<close>

datatype stmt =
    Assign "target list" expr
  | AugAssign
  | AnnAssign
  | Expr expr
  | Return "expr option"
  | Raise
  | Delete
  | Pass
  | Break
  | Continue
  | Global
  | Nonlocal
  | Assert
  | Import
  | ImportFrom
  | If_stmt expr "stmt list" "stmt list"
  | For "stmt list" "stmt list"
  | While expr "stmt list" "stmt list"
  | Try "stmt list" "handler list" "stmt list" "stmt list"
  | TryStar "stmt list" "handler list" "stmt list" "stmt list"
  | With "stmt list"
  | FunctionDef string nat "stmt list"
  | ClassDef string "expr list" "stmt list"
  | OtherStmt
and handler =
    ExceptHandler "stmt list"

datatype node = StmtNode stmt | ExprNode expr

datatype error =
    ValueError
  | TypeError
  | AttributeError
  | KeyError
  | IndexError
  | InferenceError

section \<open>Logical lines of code\<close>

text \<open>The two \<open>isinstance\<close> tuples of \<open>count_lloc\<close>.\<close>

fun simple_statement :: "stmt \<Rightarrow> bool" where
  "simple_statement (Assign ts v) = True"
| "simple_statement AugAssign = True"
| "simple_statement AnnAssign = True"
| "simple_statement (Expr v) = True"
| "simple_statement (Return v) = True"
| "simple_statement Raise = True"
| "simple_statement Delete = True"
| "simple_statement Pass = True"
| "simple_statement Break = True"
| "simple_statement Continue = True"
| "simple_statement Global = True"
| "simple_statement Nonlocal = True"
| "simple_statement Assert = True"
| "simple_statement Import = True"
| "simple_statement ImportFrom = True"
| "simple_statement s = False"

fun compound_statement :: "stmt \<Rightarrow> bool" where
  "compound_statement (If_stmt t b e) = True"
| "compound_statement (For b e) = True"
| "compound_statement (While t b e) = True"
| "compound_statement (Try b h e f) = True"
| "compound_statement (With b) = True"
| "compound_statement s = False"

text \<open>\<open>node.body\<close>: \<open>None\<close> where the node kind has no such attribute.\<close>

fun body_of :: "stmt \<Rightarrow> stmt list option" where
  "body_of (If_stmt t b e) = Some b"
| "body_of (For b e) = Some b"
| "body_of (While t b e) = Some b"
| "body_of (Try b h e f) = Some b"
| "body_of (TryStar b h e f) = Some b"
| "body_of (With b) = Some b"
| "body_of (FunctionDef n k b) = Some b"
| "body_of (ClassDef n bs b) = Some b"
| "body_of s = None"

text \<open>\<open>getattr(node, 'orelse', [])\<close>.\<close>

fun orelse_of :: "stmt \<Rightarrow> stmt list" where
  "orelse_of (If_stmt t b e) = e"
| "orelse_of (For b e) = e"
| "orelse_of (While t b e) = e"
| "orelse_of (Try b h e f) = e"
| "orelse_of (TryStar b h e f) = e"
| "orelse_of s = []"

text \<open>
  \<open>lloc_loop lloc children\<close> is the loop \<open>for child in ...: lloc += ...\<close>, which the
  source writes three times with the same body; it returns the final \<open>lloc\<close>.
  \<open>count_lloc_in_compound_statement\<close> starts at 1 and runs it over \<open>node.body\<close> and
  then over \<open>orelse\<close>.
\<close>

function lloc_loop :: "nat \<Rightarrow> stmt list \<Rightarrow> error + nat"
  and count_lloc_in_compound_statement :: "stmt \<Rightarrow> error + nat" where
  "lloc_loop lloc [] = Inr lloc"
| "lloc_loop lloc (child # rest) =
     (if simple_statement child then lloc_loop (lloc + 1) rest
      else if compound_statement child then
        (case count_lloc_in_compound_statement child of
           Inl e \<Rightarrow> Inl e
         | Inr k \<Rightarrow> lloc_loop (lloc + k) rest)
      else lloc_loop lloc rest)"
| "count_lloc_in_compound_statement node =
     (case body_of node of
        None \<Rightarrow> Inl AttributeError
      | Some b \<Rightarrow>
          (case lloc_loop 1 b of
             Inl e \<Rightarrow> Inl e
           | Inr lloc \<Rightarrow> lloc_loop lloc (orelse_of node)))"
  by pat_completeness auto
termination
proof (relation "measure (\<lambda>x. case x of Inl (l, ss) \<Rightarrow> size_list size ss | Inr s \<Rightarrow> size s)")
  fix node :: stmt and b :: "stmt list"
  assume "body_of node = Some b"
  then show "(Inl (1, b), Inr node)
      \<in> measure (\<lambda>x. case x of Inl (l, ss) \<Rightarrow> size_list size ss | Inr s \<Rightarrow> size s)"
    by (cases node) auto
next
  fix node :: stmt and b :: "stmt list" and k :: nat
  assume "body_of node = Some b"
  then show "(Inl (k, orelse_of node), Inr node)
      \<in> measure (\<lambda>x. case x of Inl (l, ss) \<Rightarrow> size_list size ss | Inr s \<Rightarrow> size s)"
    by (cases node) auto
qed auto

fun count_lloc :: "node \<Rightarrow> error + nat" where
  "count_lloc (StmtNode (FunctionDef n k b)) = lloc_loop 0 b"
| "count_lloc nd = Inl ValueError"

section \<open>The parser's state\<close>

text \<open>
  Python dictionaries are objects and a variable holds a reference to one. The class
  attributes \<open>_CLASS_INIT\<close> and \<open>_METHOD_INIT\<close> are each one dictionary object, created
  once when the class statement runs. The store below maps references to dictionary
  contents; \<open>CLASS_INIT\<close> and \<open>METHOD_INIT\<close> are the references of those two objects.
  The sets and the inner \<open>methods\<close> dictionary are reachable only through the dictionary
  that holds them and are only updated in place, so they are fields of its contents.
\<close>

type_synonym ref = nat

record method_dict =
  m_accessed_attributes :: "string set"
  m_called :: "string set"
  m_lloc :: nat
  m_number_of_parameters :: nat

record class_dict =
  accessed_attributes :: "string set"
  called :: "string set"
  methods :: "string \<rightharpoonup> ref"
  attributes :: "(string \<times> string option) set"
  variables :: "string set"
  direct_children :: nat
  coupled_classes :: "string set"

record parser_state =
  class_store :: "ref \<Rightarrow> class_dict"
  method_store :: "ref \<Rightarrow> method_dict"
  classes :: "string \<rightharpoonup> ref"
  inheritances :: "string \<rightharpoonup> string"

definition CLASS_INIT :: ref where
  "CLASS_INIT = 0"

definition METHOD_INIT :: ref where
  "METHOD_INIT = 0"

definition class_init_value :: class_dict where
  "class_init_value =
     \<lparr>accessed_attributes = {}, called = {}, methods = Map.empty, attributes = {},
      variables = {}, direct_children = 0, coupled_classes = {}\<rparr>"

definition method_init_value :: method_dict where
  "method_init_value =
     \<lparr>m_accessed_attributes = {}, m_called = {}, m_lloc = 0, m_number_of_parameters = 0\<rparr>"

text \<open>The state after the module is imported and \<open>CodeParser()\<close> has run.\<close>

definition init_state :: parser_state where
  "init_state =
     \<lparr>class_store = (\<lambda>r. class_init_value), method_store = (\<lambda>r. method_init_value),
      classes = Map.empty, inheritances = Map.empty\<rparr>"

text \<open>
  The \<open>dict\<close> argument of the two extraction helpers: \<open>_extract_methods\<close> passes a
  method dictionary, \<open>_extract_classes_data\<close> passes the statement node \<open>class_node\<close>.
  An astroid statement node has no \<open>__getitem__\<close>, so subscripting it raises
  \<open>TypeError\<close>.
\<close>

datatype dict_arg = MethodDictRef ref | NodeArg stmt

text \<open>\<open>dict['called'].add(x)\<close> and \<open>dict['accessed_attributes'].add(x)\<close>.\<close>

fun add_called :: "dict_arg \<Rightarrow> string \<Rightarrow> parser_state \<Rightarrow> error + parser_state" where
  "add_called (MethodDictRef r) x st =
     Inr (st\<lparr>method_store := (method_store st)
            (r := (method_store st r)\<lparr>m_called := insert x (m_called (method_store st r))\<rparr>)\<rparr>)"
| "add_called (NodeArg n) x st = Inl TypeError"

fun add_accessed_attribute :: "dict_arg \<Rightarrow> string \<Rightarrow> parser_state \<Rightarrow> error + parser_state" where
  "add_accessed_attribute (MethodDictRef r) x st =
     Inr (st\<lparr>method_store := (method_store st)
            (r := (method_store st r)\<lparr>m_accessed_attributes :=
                     insert x (m_accessed_attributes (method_store st r))\<rparr>)\<rparr>)"
| "add_accessed_attribute (NodeArg n) x st = Inl TypeError"

text \<open>
  \<open>self.classes[class_name][...]\<close> updated in place; \<open>KeyError\<close> when the name is not a
  key of \<open>self.classes\<close>.
\<close>

definition update_class ::
  "string \<Rightarrow> (class_dict \<Rightarrow> class_dict) \<Rightarrow> parser_state \<Rightarrow> error + parser_state" where
  "update_class class_name f st =
     (case classes st class_name of
        None \<Rightarrow> Inl KeyError
      | Some r \<Rightarrow> Inr (st\<lparr>class_store := (class_store st)(r := f (class_store st r))\<rparr>))"

definition add_coupled_class :: "string \<Rightarrow> string \<Rightarrow> parser_state \<Rightarrow> error + parser_state" where
  "add_coupled_class class_name x =
     update_class class_name (coupled_classes_update (insert x))"

definition add_attribute ::
  "string \<Rightarrow> string \<times> string option \<Rightarrow> parser_state \<Rightarrow> error + parser_state" where
  "add_attribute class_name x = update_class class_name (attributes_update (insert x))"

definition add_variable :: "string \<Rightarrow> string \<Rightarrow> parser_state \<Rightarrow> error + parser_state" where
  "add_variable class_name x = update_class class_name (variables_update (insert x))"

definition set_method :: "string \<Rightarrow> string \<Rightarrow> ref \<Rightarrow> parser_state \<Rightarrow> error + parser_state" where
  "set_method class_name method_name r =
     update_class class_name (methods_update (\<lambda>m. m(method_name \<mapsto> r)))"

section \<open>Rendering of expressions\<close>

text \<open>
  \<open>as_string\<close> is astroid's renderer, for the expression kinds modelled: a name is its
  identifier, a call is \<open>func(arg, arg)\<close>, an attribute access is \<open>expr.attrname\<close>, with
  the receiver in parentheses when its text is all digits.
\<close>

definition isdigit :: "string \<Rightarrow> bool" where
  "isdigit s = (s \<noteq> [] \<and> list_all (\<lambda>c. c \<in> set ''0123456789'') s)"

fun join_comma :: "string list \<Rightarrow> string" where
  "join_comma [] = []"
| "join_comma [x] = x"
| "join_comma (x # y # r) = x @ '', '' @ join_comma (y # r)"

fun as_string :: "expr \<Rightarrow> string" where
  "as_string (Name n) = n"
| "as_string (Const c) = c"
| "as_string (Attribute ex attrname) =
     (let left = as_string ex
      in (if isdigit left then ''('' @ left @ '')'' else left) @ ''.'' @ attrname)"
| "as_string (Call func args) = as_string func @ ''('' @ join_comma (map as_string args) @ '')''"

section \<open>Extraction\<close>

text \<open>\<open>_extract_used_attributes_recursive\<close>, with its loop over \<open>node.args\<close>.\<close>

fun extract_used_attributes_recursive ::
    "expr \<Rightarrow> dict_arg \<Rightarrow> string \<Rightarrow> parser_state \<Rightarrow> error + parser_state"
  and extract_used_args ::
    "expr list \<Rightarrow> dict_arg \<Rightarrow> string \<Rightarrow> parser_state \<Rightarrow> error + parser_state" where
  "extract_used_attributes_recursive (Call func args) d class_name st =
     (case extract_used_args args d class_name st of
        Inl e \<Rightarrow> Inl e
      | Inr st1 \<Rightarrow>
          (let called_method = as_string func in
           case add_called d called_method st1 of
             Inl e \<Rightarrow> Inl e
           | Inr st2 \<Rightarrow>
               if CHR ''.'' \<in> set called_method then
                 (let callee_class = takeWhile (\<lambda>c. c \<noteq> CHR ''.'') called_method in
                  if callee_class \<noteq> class_name
                  then add_coupled_class class_name callee_class st2
                  else Inr st2)
               else Inr st2))"
| "extract_used_attributes_recursive (Attribute ex attrname) d class_name st =
     (if as_string ex \<noteq> ''self'' then
        (let used_class = as_string ex in
         case add_coupled_class class_name used_class st of
           Inl e \<Rightarrow> Inl e
         | Inr st1 \<Rightarrow> add_accessed_attribute d (used_class @ ''.'' @ attrname) st1)
      else add_accessed_attribute d attrname st)"
| "extract_used_attributes_recursive (Name n) d class_name st = Inr st"
| "extract_used_attributes_recursive (Const c) d class_name st = Inr st"
| "extract_used_args [] d class_name st = Inr st"
| "extract_used_args (arg # rest) d class_name st =
     (case extract_used_attributes_recursive arg d class_name st of
        Inl e \<Rightarrow> Inl e
      | Inr st1 \<Rightarrow> extract_used_args rest d class_name st1)"

text \<open>
  \<open>next(target.infer(), None).pytype()\<close> and the normalisation that follows it:
  \<open>None\<close> has no \<open>pytype\<close>, \<open>Uninferable\<close> becomes \<open>None\<close>, a leading dot is cut.
\<close>

fun attr_instance :: "inference \<Rightarrow> error + string option" where
  "attr_instance InferRaises = Inl InferenceError"
| "attr_instance InferNothing = Inl AttributeError"
| "attr_instance Uninferable = Inr None"
| "attr_instance (Inferred []) = Inl IndexError"
| "attr_instance (Inferred (c # cs)) = Inr (Some (if c = CHR ''.'' then cs else c # cs))"

fun self_attributes_loop ::
    "target list \<Rightarrow> dict_arg \<Rightarrow> string \<Rightarrow> parser_state \<Rightarrow> error + parser_state" where
  "self_attributes_loop [] d class_name st = Inr st"
| "self_attributes_loop (AssignAttr ex attr_name inferred # rest) d class_name st =
     (case attr_instance inferred of
        Inl e \<Rightarrow> Inl e
      | Inr ty \<Rightarrow>
          (case add_attribute class_name (attr_name, ty) st of
             Inl e \<Rightarrow> Inl e
           | Inr st1 \<Rightarrow>
               (case add_accessed_attribute d attr_name st1 of
                  Inl e \<Rightarrow> Inl e
                | Inr st2 \<Rightarrow> self_attributes_loop rest d class_name st2)))"
| "self_attributes_loop (t # rest) d class_name st = self_attributes_loop rest d class_name st"

fun extract_self_attributes ::
    "stmt \<Rightarrow> dict_arg \<Rightarrow> string \<Rightarrow> parser_state \<Rightarrow> error + parser_state" where
  "extract_self_attributes (Assign targets v) d class_name st =
     self_attributes_loop targets d class_name st"
| "extract_self_attributes s d class_name st = Inl AttributeError"

text \<open>The loop \<open>for method_node in node.body\<close> of \<open>_extract_methods\<close>.\<close>

fun method_body_loop ::
    "stmt list \<Rightarrow> dict_arg \<Rightarrow> string \<Rightarrow> parser_state \<Rightarrow> error + parser_state" where
  "method_body_loop [] d class_name st = Inr st"
| "method_body_loop (Assign targets v # rest) d class_name st =
     (case extract_self_attributes (Assign targets v) d class_name st of
        Inl e \<Rightarrow> Inl e
      | Inr st1 \<Rightarrow>
          (case extract_used_attributes_recursive v d class_name st1 of
             Inl e \<Rightarrow> Inl e
           | Inr st2 \<Rightarrow> method_body_loop rest d class_name st2))"
| "method_body_loop (Expr v # rest) d class_name st =
     (case extract_used_attributes_recursive v d class_name st of
        Inl e \<Rightarrow> Inl e
      | Inr st1 \<Rightarrow> method_body_loop rest d class_name st1)"
| "method_body_loop (s # rest) d class_name st = method_body_loop rest d class_name st"

fun extract_methods :: "stmt \<Rightarrow> string \<Rightarrow> parser_state \<Rightarrow> error + parser_state" where
  "extract_methods (FunctionDef method_name k body) class_name st =
     (let method_dict = METHOD_INIT in
      case count_lloc (StmtNode (FunctionDef method_name k body)) of
        Inl e \<Rightarrow> Inl e
      | Inr l \<Rightarrow>
          (let st1 = st\<lparr>method_store := (method_store st)
                 (method_dict := (method_store st method_dict)\<lparr>m_lloc := l\<rparr>)\<rparr>;
               st2 = st1\<lparr>method_store := (method_store st1)
                 (method_dict := (method_store st1 method_dict)\<lparr>m_number_of_parameters := k\<rparr>)\<rparr>
           in case method_body_loop body (MethodDictRef method_dict) class_name st2 of
                Inl e \<Rightarrow> Inl e
              | Inr st3 \<Rightarrow> set_method class_name method_name method_dict st3))"
| "extract_methods s class_name st = Inl AttributeError"

text \<open>\<open>_extract_inheritance\<close>; \<open>base\<close> is a \<open>Name\<close> node at the only call site.\<close>

fun extract_inheritance :: "expr \<Rightarrow> string \<Rightarrow> parser_state \<Rightarrow> error + parser_state" where
  "extract_inheritance (Name base_class) class_name st =
     (let st1 = st\<lparr>inheritances := (inheritances st)(class_name \<mapsto> base_class)\<rparr>
      in if base_class \<in> dom (classes st1)
         then update_class base_class (direct_children_update (\<lambda>n. n + 1)) st1
         else Inr st1)"
| "extract_inheritance b class_name st = Inl AttributeError"

text \<open>
  \<open>target.name\<close>. An \<open>AssignName\<close> has the attribute. astroid's \<open>Tuple\<close> node is an
  instance proxy: an attribute it lacks is looked up on the builtin class \<open>tuple\<close>, whose
  \<open>name\<close> is \<open>tuple\<close>. \<open>AssignAttr\<close> and \<open>Subscript\<close> have no \<open>name\<close>.
\<close>

fun target_name :: "target \<Rightarrow> error + string" where
  "target_name (AssignName n) = Inr n"
| "target_name (TupleTarget elts) = Inr ''tuple''"
| "target_name (AssignAttr ex attrname inferred) = Inl AttributeError"
| "target_name SubscriptTarget = Inl AttributeError"

text \<open>The loop \<open>for target in class_node.targets\<close> of \<open>_extract_classes_data\<close>.\<close>

fun variables_loop :: "target list \<Rightarrow> string \<Rightarrow> parser_state \<Rightarrow> error + parser_state" where
  "variables_loop [] class_name st = Inr st"
| "variables_loop (target # rest) class_name st =
     (case target_name target of
        Inl e \<Rightarrow> Inl e
      | Inr attr_name \<Rightarrow>
          (case add_variable class_name attr_name st of
             Inl e \<Rightarrow> Inl e
           | Inr st1 \<Rightarrow> variables_loop rest class_name st1))"

text \<open>The loop \<open>for class_node in node.body\<close>, with its three \<open>if\<close> statements.\<close>

fun class_body_loop :: "stmt list \<Rightarrow> string \<Rightarrow> parser_state \<Rightarrow> error + parser_state" where
  "class_body_loop [] class_name st = Inr st"
| "class_body_loop (FunctionDef n k b # rest) class_name st =
     (case extract_methods (FunctionDef n k b) class_name st of
        Inl e \<Rightarrow> Inl e
      | Inr st1 \<Rightarrow> class_body_loop rest class_name st1)"
| "class_body_loop (Assign targets v # rest) class_name st =
     (case variables_loop targets class_name st of
        Inl e \<Rightarrow> Inl e
      | Inr st1 \<Rightarrow>
          (case extract_used_attributes_recursive v (NodeArg (Assign targets v)) class_name st1 of
             Inl e \<Rightarrow> Inl e
           | Inr st2 \<Rightarrow> class_body_loop rest class_name st2))"
| "class_body_loop (Expr v # rest) class_name st =
     (case extract_used_attributes_recursive v (NodeArg (Expr v)) class_name st of
        Inl e \<Rightarrow> Inl e
      | Inr st1 \<Rightarrow> class_body_loop rest class_name st1)"
| "class_body_loop (s # rest) class_name st = class_body_loop rest class_name st"

text \<open>The loop \<open>for base in node.bases\<close>.\<close>

fun bases_loop :: "expr list \<Rightarrow> string \<Rightarrow> parser_state \<Rightarrow> error + parser_state" where
  "bases_loop [] class_name st = Inr st"
| "bases_loop (Name b # rest) class_name st =
     (case extract_inheritance (Name b) class_name st of
        Inl e \<Rightarrow> Inl e
      | Inr st1 \<Rightarrow> bases_loop rest class_name st1)"
| "bases_loop (b # rest) class_name st = bases_loop rest class_name st"

text \<open>\<open>_extract_classes_data\<close> over \<open>module.body\<close>.\<close>

datatype module = Module "stmt list"

fun module_body_loop :: "stmt list \<Rightarrow> parser_state \<Rightarrow> error + parser_state" where
  "module_body_loop [] st = Inr st"
| "module_body_loop (ClassDef class_name bases body # rest) st =
     (let st1 = st\<lparr>classes := (classes st)(class_name \<mapsto> CLASS_INIT)\<rparr> in
      case class_body_loop body class_name st1 of
        Inl e \<Rightarrow> Inl e
      | Inr st2 \<Rightarrow>
          (case bases_loop bases class_name st2 of
             Inl e \<Rightarrow> Inl e
           | Inr st3 \<Rightarrow> module_body_loop rest st3))"
| "module_body_loop (s # rest) st = module_body_loop rest st"

fun extract_classes_data :: "module \<Rightarrow> parser_state \<Rightarrow> error + parser_state" where
  "extract_classes_data (Module body) st = module_body_loop body st"

text \<open>\<open>_translate_attributes_to_classes\<close> is \<open>pass\<close>.\<close>

definition translate_attributes_to_classes :: "parser_state \<Rightarrow> error + parser_state" where
  "translate_attributes_to_classes st = Inr st"

text \<open>
  \<open>extract_code_data\<close>, from the tree that \<open>astroid.parse(code)\<close> returned for a
  syntactically valid \<open>code\<close>.
\<close>

definition extract_code_data :: "module \<Rightarrow> parser_state \<Rightarrow> error + parser_state" where
  "extract_code_data m st =
     (case extract_classes_data m st of
        Inl e \<Rightarrow> Inl e
      | Inr st1 \<Rightarrow> translate_attributes_to_classes st1)"

text \<open>Reading the registry: the dictionary a class name, or a method of it, refers to.\<close>

fun class_record :: "error + parser_state \<Rightarrow> string \<Rightarrow> class_dict option" where
  "class_record (Inl e) class_name = None"
| "class_record (Inr st) class_name = map_option (class_store st) (classes st class_name)"

fun method_record :: "error + parser_state \<Rightarrow> string \<Rightarrow> string \<Rightarrow> method_dict option" where
  "method_record (Inl e) class_name method_name = None"
| "method_record (Inr st) class_name method_name =
     (case classes st class_name of
        None \<Rightarrow> None
      | Some r \<Rightarrow> map_option (method_store st) (methods (class_store st r) method_name))"

section \<open>Notions used to state the properties\<close>

text \<open>
  The simple statement kinds the specification lists: assignment forms, expression
  statements, return, raise, delete, pass, break, continue, global and nonlocal
  declarations, assert, import forms.
\<close>

fun spec_simple_statement :: "stmt \<Rightarrow> bool" where
  "spec_simple_statement (Assign ts v) = True"
| "spec_simple_statement AugAssign = True"
| "spec_simple_statement AnnAssign = True"
| "spec_simple_statement (Expr v) = True"
| "spec_simple_statement (Return v) = True"
| "spec_simple_statement Raise = True"
| "spec_simple_statement Delete = True"
| "spec_simple_statement Pass = True"
| "spec_simple_statement Break = True"
| "spec_simple_statement Continue = True"
| "spec_simple_statement Global = True"
| "spec_simple_statement Nonlocal = True"
| "spec_simple_statement Assert = True"
| "spec_simple_statement Import = True"
| "spec_simple_statement ImportFrom = True"
| "spec_simple_statement (If_stmt t b e) = False"
| "spec_simple_statement (For b e) = False"
| "spec_simple_statement (While t b e) = False"
| "spec_simple_statement (Try b h e f) = False"
| "spec_simple_statement (TryStar b h e f) = False"
| "spec_simple_statement (With b) = False"
| "spec_simple_statement (FunctionDef n k b) = False"
| "spec_simple_statement (ClassDef n bs b) = False"
| "spec_simple_statement OtherStmt = False"

text \<open>
  The logical-line count as the specification words it: a simple statement contributes
  1; each compound statement contributes 1 for its header, plus the count of its primary
  body, plus the count of its else body; the count of a sequence is the sum over its
  statements. The compound statements of the tree are the conditional, the loops, both
  exception-handling blocks, the scoped-resource block and the nested definitions.
\<close>

fun spec_lloc_statement :: "stmt \<Rightarrow> nat"
  and spec_lloc_sequence :: "stmt list \<Rightarrow> nat" where
  "spec_lloc_statement (Assign ts v) = 1"
| "spec_lloc_statement AugAssign = 1"
| "spec_lloc_statement AnnAssign = 1"
| "spec_lloc_statement (Expr v) = 1"
| "spec_lloc_statement (Return v) = 1"
| "spec_lloc_statement Raise = 1"
| "spec_lloc_statement Delete = 1"
| "spec_lloc_statement Pass = 1"
| "spec_lloc_statement Break = 1"
| "spec_lloc_statement Continue = 1"
| "spec_lloc_statement Global = 1"
| "spec_lloc_statement Nonlocal = 1"
| "spec_lloc_statement Assert = 1"
| "spec_lloc_statement Import = 1"
| "spec_lloc_statement ImportFrom = 1"
| "spec_lloc_statement (If_stmt t b e) = 1 + spec_lloc_sequence b + spec_lloc_sequence e"
| "spec_lloc_statement (For b e) = 1 + spec_lloc_sequence b + spec_lloc_sequence e"
| "spec_lloc_statement (While t b e) = 1 + spec_lloc_sequence b + spec_lloc_sequence e"
| "spec_lloc_statement (Try b h e f) = 1 + spec_lloc_sequence b + spec_lloc_sequence e"
| "spec_lloc_statement (TryStar b h e f) = 1 + spec_lloc_sequence b + spec_lloc_sequence e"
| "spec_lloc_statement (With b) = 1 + spec_lloc_sequence b"
| "spec_lloc_statement (FunctionDef n k b) = 1 + spec_lloc_sequence b"
| "spec_lloc_statement (ClassDef n bs b) = 1 + spec_lloc_sequence b"
| "spec_lloc_statement OtherStmt = 0"
| "spec_lloc_sequence [] = 0"
| "spec_lloc_sequence (s # rest) = spec_lloc_statement s + spec_lloc_sequence rest"

text \<open>
  The count with the compound kinds narrowed to those that \<open>count_lloc\<close> names: a
  conditional, a \<open>for\<close> or \<open>while\<close> loop, a \<open>try\<close> statement and a \<open>with\<close> statement
  contribute 1 plus body plus else body; a \<open>try ... except*\<close> block, a nested function
  or class definition and any other statement contribute 0, whatever they contain.
\<close>

fun lloc_statement :: "stmt \<Rightarrow> nat"
  and lloc_sequence :: "stmt list \<Rightarrow> nat" where
  "lloc_statement (Assign ts v) = 1"
| "lloc_statement AugAssign = 1"
| "lloc_statement AnnAssign = 1"
| "lloc_statement (Expr v) = 1"
| "lloc_statement (Return v) = 1"
| "lloc_statement Raise = 1"
| "lloc_statement Delete = 1"
| "lloc_statement Pass = 1"
| "lloc_statement Break = 1"
| "lloc_statement Continue = 1"
| "lloc_statement Global = 1"
| "lloc_statement Nonlocal = 1"
| "lloc_statement Assert = 1"
| "lloc_statement Import = 1"
| "lloc_statement ImportFrom = 1"
| "lloc_statement (If_stmt t b e) = 1 + lloc_sequence b + lloc_sequence e"
| "lloc_statement (For b e) = 1 + lloc_sequence b + lloc_sequence e"
| "lloc_statement (While t b e) = 1 + lloc_sequence b + lloc_sequence e"
| "lloc_statement (Try b h e f) = 1 + lloc_sequence b + lloc_sequence e"
| "lloc_statement (With b) = 1 + lloc_sequence b"
| "lloc_statement (TryStar b h e f) = 0"
| "lloc_statement (FunctionDef n k b) = 0"
| "lloc_statement (ClassDef n bs b) = 0"
| "lloc_statement OtherStmt = 0"
| "lloc_sequence [] = 0"
| "lloc_sequence (s # rest) = lloc_statement s + lloc_sequence rest"


text \<open>
  The nodes that \<open>_extract_used_attributes_recursive\<close> visits from the value of a
  statement: the value itself and, when it is a call, the nodes visited from each of its
  positional arguments.
\<close>

fun walked :: "expr \<Rightarrow> expr list" where
  "walked (Call func args) = Call func args # concat (map walked args)"
| "walked (Attribute ex attrname) = [Attribute ex attrname]"
| "walked (Name n) = [Name n]"
| "walked (Const c) = [Const c]"

text \<open>
  What the walk stores for a visited node: the text of the call target in \<open>called\<close>;
  for an attribute access the key \<open>receiver.attrname\<close> in \<open>accessed_attributes\<close>, or
  the bare \<open>attrname\<close> when the receiver's text is \<open>self\<close>.
\<close>

fun recorded :: "expr \<Rightarrow> method_dict \<Rightarrow> bool" where
  "recorded (Call func args) m = (as_string func \<in> m_called m)"
| "recorded (Attribute ex attrname) m =
     ((if as_string ex \<noteq> ''self'' then as_string ex @ ''.'' @ attrname else attrname)
        \<in> m_accessed_attributes m)"
| "recorded (Name n) m = True"
| "recorded (Const c) m = True"

text \<open>
  Growth of the state during extraction: the \<open>called\<close> and \<open>accessed_attributes\<close> sets
  of every method dictionary only grow, a class name bound to \<open>CLASS_INIT\<close> stays bound
  to it, and a method name bound to \<open>METHOD_INIT\<close> in the \<open>methods\<close> of \<open>CLASS_INIT\<close>
  stays bound to it.
\<close>

definition method_dict_le :: "method_dict \<Rightarrow> method_dict \<Rightarrow> bool" where
  "method_dict_le a b =
     (m_called a \<subseteq> m_called b \<and> m_accessed_attributes a \<subseteq> m_accessed_attributes b)"

definition state_le :: "parser_state \<Rightarrow> parser_state \<Rightarrow> bool" where
  "state_le st st' =
     ((\<forall>r. method_dict_le (method_store st r) (method_store st' r)) \<and>
      (\<forall>n. classes st n = Some CLASS_INIT \<longrightarrow> classes st' n = Some CLASS_INIT) \<and>
      (\<forall>n. methods (class_store st CLASS_INIT) n = Some METHOD_INIT \<longrightarrow>
           methods (class_store st' CLASS_INIT) n = Some METHOD_INIT))"

section \<open>Concrete modules\<close>

text \<open>
  Two classes, the first with two methods, the second with none:
  \<^verbatim>\<open>class A:\<close>, \<^verbatim>\<open>def f(self): self.x = 1\<close>,
  \<^verbatim>\<open>def g(self, y): pass; return y\<close>, then \<^verbatim>\<open>class B: pass\<close>.
\<close>

definition aliasing_module :: module where
  "aliasing_module = Module
     [ClassDef ''A'' []
        [FunctionDef ''f'' 1
           [Assign [AssignAttr (Name ''self'') ''x'' (Inferred ''builtins.int'')] (Const ''1'')],
         FunctionDef ''g'' 2 [Pass, Return (Some (Name ''y''))]],
      ClassDef ''B'' [] [Pass]]"

text \<open>
  A class whose body assigns the result of a call, as \<open>MyClass\<close> does in the test input
  of the source file: \<^verbatim>\<open>class MyClass: class_variable = UsedClass6()\<close>.
\<close>

definition class_body_call_module :: module where
  "class_body_call_module = Module
     [ClassDef ''MyClass'' []
        [Assign [AssignName ''class_variable''] (Call (Name ''UsedClass6'') [])]]"

text \<open>
  A class body with an assignment to an attribute target:
  \<^verbatim>\<open>class C: Other.x = 1\<close>.
\<close>

definition class_body_attribute_target_module :: module where
  "class_body_attribute_target_module = Module
     [ClassDef ''C'' []
        [Assign [AssignAttr (Name ''Other'') ''x'' (Inferred ''builtins.int'')] (Const ''1'')]]"

text \<open>
  The whole test input under \<open>if __name__ == "__main__"\<close> of \<open>code_parser.py\<close>.
  The inferred types are those of astroid for a module parsed without a name: a string
  literal is \<open>builtins.str\<close>, an instance of \<open>UsedClass\<close> is \<open>.UsedClass\<close>, a parameter
  is \<open>Uninferable\<close>.
\<close>

definition main_test_module :: module where
  "main_test_module = Module
     [ClassDef ''UsedClass'' []
        [FunctionDef ''__init__'' 1
           [Assign [AssignAttr (Name ''self'') ''used_attr_1'' (Inferred ''builtins.str'')]
              (Const ''I am here to be used!''),
            Assign [AssignAttr (Name ''self'') ''used_attr_2'' (Inferred ''builtins.str'')]
              (Const ''I am here to be used!''),
            Assign [AssignAttr (Name ''self'') ''used_attr_3'' (Inferred ''.UsedClass'')]
              (Call (Name ''UsedClass'') [])]],
      ClassDef ''MySuperParent'' []
        [Assign [AssignName ''super_parent_var''] (Const ''0''),
         FunctionDef ''__init__'' 1 [Pass]],
      ClassDef ''MyParent'' [Name ''MySuperParent'']
        [Assign [AssignName ''parent_var''] (Const ''0''),
         FunctionDef ''__init__'' 1 [Pass]],
      ClassDef ''MyClass'' [Name ''MyParent'']
        [Assign [AssignName ''class_variable''] (Call (Name ''UsedClass6'') []),
         FunctionDef ''__init__'' 2
           [Assign [AssignAttr (Name ''self'') ''instance_variable'' Uninferable] (Name ''value''),
            Assign [AssignAttr (Name ''self'') ''UsedClassAttribute'' (Inferred ''.UsedClass'')]
              (Call (Name ''UsedClass'') []),
            Assign [AssignName ''usedClassVariable''] (Call (Name ''UsedClass'') [])],
         FunctionDef ''my_method'' 1
           [Expr (Call (Name ''print'') [Attribute (Name ''self'') ''instance_variable'']),
            Expr (Call (Name ''print'')
              [Attribute (Attribute (Name ''self'') ''UsedClassAttribute'') ''used_attr'']),
            Expr (Call (Name ''print'')
              [Attribute (Attribute (Name ''self'') ''UsedClassAttribute'') ''used_attr_2'',
               Attribute (Attribute (Name ''self'') ''UsedClassAttribute'') ''used_attr_3''])]],
      FunctionDef ''my_function'' 0
        [Assign [AssignName ''local_variable''] (Const ''10''),
         Expr (Call (Name ''print'') [Name ''local_variable''])]]"

text \<open>
  The round-trip scenario: \<open>UsedClass\<close> with three instance attributes set in
  \<open>__init__\<close>, and \<open>MyClass\<close> with the one method
  \<^verbatim>\<open>def my_method(self): print(self.instance_variable); print(self.UsedClassAttribute.used_attr)\<close>.
\<close>

definition scenario_module :: module where
  "scenario_module = Module
     [ClassDef ''UsedClass'' []
        [FunctionDef ''__init__'' 1
           [Assign [AssignAttr (Name ''self'') ''used_attr_1'' (Inferred ''builtins.str'')]
              (Const ''I am here to be used!''),
            Assign [AssignAttr (Name ''self'') ''used_attr_2'' (Inferred ''builtins.str'')]
              (Const ''I am here to be used!''),
            Assign [AssignAttr (Name ''self'') ''used_attr_3'' (Inferred ''.UsedClass'')]
              (Call (Name ''UsedClass'') [])]],
      ClassDef ''MyClass'' []
        [FunctionDef ''my_method'' 1
           [Expr (Call (Name ''print'') [Attribute (Name ''self'') ''instance_variable'']),
            Expr (Call (Name ''print'')
              [Attribute (Attribute (Name ''self'') ''UsedClassAttribute'') ''used_attr''])]]]"

text \<open>
  The inheritance chain: \<open>MySuperParent\<close>, \<open>MyParent(MySuperParent)\<close>,
  \<open>MyClass(MyParent)\<close>, the first two with the bodies of the test input.
\<close>

definition inheritance_chain_module :: module where
  "inheritance_chain_module = Module
     [ClassDef ''MySuperParent'' []
        [Assign [AssignName ''super_parent_var''] (Const ''0''),
         FunctionDef ''__init__'' 1 [Pass]],
      ClassDef ''MyParent'' [Name ''MySuperParent'']
        [Assign [AssignName ''parent_var''] (Const ''0''),
         FunctionDef ''__init__'' 1 [Pass]],
      ClassDef ''MyClass'' [Name ''MyParent'']
        [FunctionDef ''__init__'' 1 [Pass]]]"

text \<open>
  A class name defined twice:
  \<^verbatim>\<open>class A:\<close> with \<^verbatim>\<open>def f(self): self.x = 1; print(Other.y)\<close>, then
  \<^verbatim>\<open>class A: pass\<close>. The integer literal is inferred as \<open>builtins.int\<close>.
\<close>

definition redefinition_module :: module where
  "redefinition_module = Module
     [ClassDef ''A'' []
        [FunctionDef ''f'' 1
           [Assign [AssignAttr (Name ''self'') ''x'' (Inferred ''builtins.int'')] (Const ''1''),
            Expr (Call (Name ''print'') [Attribute (Name ''Other'') ''y''])]],
      ClassDef ''A'' [] [Pass]]"

text \<open>
  A class with a tuple assignment in its body and one method:
  \<^verbatim>\<open>class C:\<close>, \<^verbatim>\<open>a, b = pair\<close>, \<^verbatim>\<open>def m(self):\<close> with the three statements
  \<^verbatim>\<open>self.obj.run(self.a.b)\<close>, \<^verbatim>\<open>if flag: helper()\<close> and \<^verbatim>\<open>return self.x\<close>.
\<close>

definition unvisited_module :: module where
  "unvisited_module = Module
     [ClassDef ''C'' []
        [Assign [TupleTarget [AssignName ''a'', AssignName ''b'']] (Name ''pair''),
         FunctionDef ''m'' 1
           [Expr (Call (Attribute (Attribute (Name ''self'') ''obj'') ''run'')
              [Attribute (Attribute (Name ''self'') ''a'') ''b'']),
            If_stmt (Name ''flag'') [Expr (Call (Name ''helper'') [])] [],
            Return (Some (Attribute (Name ''self'') ''x''))]]]"

text \<open>
  A class body that reads an attribute of another object:
  \<^verbatim>\<open>class C: x = Other.attr\<close>.
\<close>

definition class_body_attribute_module :: module where
  "class_body_attribute_module = Module
     [ClassDef ''C'' []
        [Assign [AssignName ''x''] (Attribute (Name ''Other'') ''attr'')]]"

section \<open>Properties of the logical-line count\<close>

lemma lloc_loop_count:
  "lloc_loop acc ss = Inr (acc + lloc_sequence ss)"
  "compound_statement s \<Longrightarrow> count_lloc_in_compound_statement s = Inr (lloc_statement s)"
proof (induction acc ss and s rule: lloc_loop_count_lloc_in_compound_statement.induct)
  case (1 lloc)
  then show ?case by simp
next
  case (2 lloc child rest)
  then show ?case by (cases child) simp_all
next
  case (3 node)
  then show ?case by (cases node) simp_all
qed

lemma lloc_statement_simple: "spec_simple_statement s \<Longrightarrow> lloc_statement s = 1"
  by (cases s) simp_all


text \<open>
  C7, as stated, fails: each compound statement is to contribute 1 for its header plus
  the count of its body. For the method \<^verbatim>\<open>def m(self):\<close> whose body is the one block
  \<^verbatim>\<open>try: pass\<close> \<^verbatim>\<open>except* E: pass\<close> that count is 2 and \<open>count_lloc\<close> returns 0; for
  the method whose body is the nested definition \<^verbatim>\<open>def inner(): pass\<close> likewise.
\<close>

theorem count_lloc_compound_counterexample:
  "spec_lloc_sequence [TryStar [Pass] [ExceptHandler [Pass]] [] []] = 2 \<and>
   count_lloc (StmtNode (FunctionDef ''m'' 1 [TryStar [Pass] [ExceptHandler [Pass]] [] []]))
     = Inr 0 \<and>
   spec_lloc_sequence [FunctionDef ''inner'' 0 [Pass]] = 2 \<and>
   count_lloc (StmtNode (FunctionDef ''m'' 1 [FunctionDef ''inner'' 0 [Pass]])) = Inr 0"
  by simp

text \<open>
  C7, amended. For every function definition, \<open>count_lloc\<close> returns the count defined
  by: 1 per simple statement of the listed kinds; for a conditional, a \<open>for\<close> or
  \<open>while\<close> loop, a \<open>try\<close> statement and a \<open>with\<close> statement 1 for the header plus the
  count of its body plus the count of its else body; 0 for every other statement (a
  \<open>try ... except*\<close> block, a nested function or class definition), whatever it contains.
  A method whose body is one conditional with two simple statements and an else branch
  with one simple statement has LLOC 4.
\<close>

theorem count_lloc_compound_statements:
  "count_lloc (StmtNode (FunctionDef n k body)) = Inr (lloc_sequence body) \<and>
   (spec_simple_statement s1 \<and> spec_simple_statement s2 \<and> spec_simple_statement s3 \<longrightarrow>
      count_lloc (StmtNode (FunctionDef n k [If_stmt t [s1, s2] [s3]])) = Inr 4)"
  by (simp add: lloc_loop_count lloc_statement_simple)

theorem count_lloc_compound_statements_witness:
  "count_lloc (StmtNode (FunctionDef ''m'' 1
      [If_stmt (Name ''c'') [Pass, Expr (Name ''x'')] [Return None]])) = Inr 4"
  using count_lloc_compound_statements
    [of "''m''" 1 "[]" Pass "Expr (Name ''x'')" "Return None" "Name ''c''"]
  by simp

text \<open>
  C8. \<open>count_lloc\<close> returns a count for every function definition node, and raises
  \<open>ValueError\<close> for every other node; it never returns a value for such a node.
\<close>

theorem count_lloc_fail_fast:
  "(if (\<exists>n k b. nd = StmtNode (FunctionDef n k b))
    then (\<exists>l. count_lloc nd = Inr l)
    else count_lloc nd = Inl ValueError)"
proof (cases nd)
  case (StmtNode s)
  then show ?thesis by (cases s) (simp_all add: lloc_loop_count)
next
  case (ExprNode e)
  then show ?thesis by simp
qed

theorem count_lloc_fail_fast_witness:
  "count_lloc (StmtNode (If_stmt (Name ''c'') [Pass] [])) = Inl ValueError \<and>
   count_lloc (ExprNode (Name ''c'')) = Inl ValueError \<and>
   (\<exists>l. count_lloc (StmtNode (FunctionDef ''m'' 0 [Pass])) = Inr l)"
  using count_lloc_fail_fast [of "StmtNode (If_stmt (Name ''c'') [Pass] [])"]
    count_lloc_fail_fast [of "ExprNode (Name ''c'')"]
    count_lloc_fail_fast [of "StmtNode (FunctionDef ''m'' 0 [Pass])"]
  by simp



section \<open>Properties of the extraction\<close>

lemmas extraction_defs =
  extract_code_data_def translate_attributes_to_classes_def init_state_def
  class_init_value_def method_init_value_def CLASS_INIT_def METHOD_INIT_def update_class_def
  add_coupled_class_def add_attribute_def add_variable_def set_method_def isdigit_def Let_def

subsection \<open>The state only grows\<close>

lemma state_le_refl: "state_le st st"
  by (simp add: state_le_def method_dict_le_def)

lemma state_le_trans: "state_le a b \<Longrightarrow> state_le b c \<Longrightarrow> state_le a c"
  unfolding state_le_def method_dict_le_def by (meson subset_trans)

lemma recorded_le: "recorded e a \<Longrightarrow> method_dict_le a b \<Longrightarrow> recorded e b"
  by (cases e) (auto simp: method_dict_le_def)

lemma recorded_state_le:
  "recorded e (method_store st r) \<Longrightarrow> state_le st st' \<Longrightarrow> recorded e (method_store st' r)"
  using recorded_le by (auto simp: state_le_def)

lemma add_called_le: "add_called d x st = Inr st' \<Longrightarrow> state_le st st'"
  by (cases d) (auto simp: state_le_def method_dict_le_def)

lemma add_accessed_attribute_le: "add_accessed_attribute d x st = Inr st' \<Longrightarrow> state_le st st'"
  by (cases d) (auto simp: state_le_def method_dict_le_def)

lemma update_class_le:
  "update_class cn f st = Inr st' \<Longrightarrow> (\<And>c. methods (f c) = methods c) \<Longrightarrow> state_le st st'"
  by (auto simp: update_class_def state_le_def method_dict_le_def split: option.splits)

lemma add_coupled_class_le: "add_coupled_class cn x st = Inr st' \<Longrightarrow> state_le st st'"
  unfolding add_coupled_class_def by (erule update_class_le) simp

lemma add_attribute_le: "add_attribute cn x st = Inr st' \<Longrightarrow> state_le st st'"
  unfolding add_attribute_def by (erule update_class_le) simp

lemma add_variable_le: "add_variable cn x st = Inr st' \<Longrightarrow> state_le st st'"
  unfolding add_variable_def by (erule update_class_le) simp

lemma set_method_le: "set_method cn mn METHOD_INIT st = Inr st' \<Longrightarrow> state_le st st'"
  by (auto simp: set_method_def update_class_def state_le_def method_dict_le_def
      split: option.splits)

lemma extract_used_le:
  "extract_used_attributes_recursive e d cn st = Inr st' \<Longrightarrow> state_le st st'"
  "extract_used_args es d cn st = Inr st' \<Longrightarrow> state_le st st'"
proof (induction e d cn st and es d cn st arbitrary: st' and st'
    rule: extract_used_attributes_recursive_extract_used_args.induct)
  case (1 func args d class_name st)
  from "1.prems" obtain st1 st2 where
    a: "extract_used_args args d class_name st = Inr st1" and
    b: "add_called d (as_string func) st1 = Inr st2" and
    c: "st' = st2 \<or> add_coupled_class class_name
          (takeWhile (\<lambda>c. c \<noteq> CHR ''.'') (as_string func)) st2 = Inr st'"
    by (auto simp: Let_def split: sum.splits if_splits)
  have "state_le st st1" using "1.IH" a by simp
  moreover have "state_le st1 st2" using b by (rule add_called_le)
  moreover have "state_le st2 st'" using c state_le_refl add_coupled_class_le by blast
  ultimately show ?case using state_le_trans by blast
next
  case (2 ex attrname d class_name st)
  then show ?case
    by (auto simp: Let_def split: sum.splits if_splits
        intro: state_le_trans add_coupled_class_le add_accessed_attribute_le)
next
  case (3 n d class_name st)
  then show ?case by (simp add: state_le_refl)
next
  case (4 c d class_name st)
  then show ?case by (simp add: state_le_refl)
next
  case (5 d class_name st)
  then show ?case by (simp add: state_le_refl)
next
  case (6 arg rest d class_name st)
  from "6.prems" obtain st1 where
    a: "extract_used_attributes_recursive arg d class_name st = Inr st1" and
    b: "extract_used_args rest d class_name st1 = Inr st'"
    by (auto split: sum.splits)
  show ?case using "6.IH"(1) [OF a] "6.IH"(2) [OF a b] state_le_trans by blast
qed

lemma extract_used_records:
  "extract_used_attributes_recursive v (MethodDictRef r) cn st = Inr st' \<Longrightarrow>
     e \<in> set (walked v) \<Longrightarrow> recorded e (method_store st' r)"
  "extract_used_args es (MethodDictRef r) cn st = Inr st' \<Longrightarrow>
     a \<in> set es \<Longrightarrow> e \<in> set (walked a) \<Longrightarrow> recorded e (method_store st' r)"
proof (induction v "MethodDictRef r" cn st and es "MethodDictRef r" cn st
    arbitrary: st' e and st' a e
    rule: extract_used_attributes_recursive_extract_used_args.induct)
  case (1 func args class_name st)
  from "1.prems"(1) obtain st1 st2 where
    a: "extract_used_args args (MethodDictRef r) class_name st = Inr st1" and
    b: "add_called (MethodDictRef r) (as_string func) st1 = Inr st2" and
    c: "st' = st2 \<or> add_coupled_class class_name
          (takeWhile (\<lambda>c. c \<noteq> CHR ''.'') (as_string func)) st2 = Inr st'"
    by (auto simp: Let_def split: sum.splits if_splits)
  have le1: "state_le st1 st2" using b by (rule add_called_le)
  have le2: "state_le st2 st'" using c state_le_refl add_coupled_class_le by blast
  have here: "recorded (Call func args) (method_store st2 r)" using b by auto
  show ?case
  proof (cases "e = Call func args")
    case True
    then show ?thesis using here le2 recorded_state_le by blast
  next
    case False
    with "1.prems"(2) obtain a' where "a' \<in> set args" "e \<in> set (walked a')" by auto
    then have "recorded e (method_store st1 r)" using "1.hyps" a by blast
    then show ?thesis using le1 le2 recorded_state_le by blast
  qed
next
  case (2 ex attrname class_name st)
  then show ?case
    by (auto simp: Let_def add_coupled_class_def update_class_def split: sum.splits if_splits option.splits)
next
  case (3 n class_name st)
  then show ?case by simp
next
  case (4 c class_name st)
  then show ?case by simp
next
  case (5 class_name st)
  then show ?case by simp
next
  case (6 arg rest class_name st)
  from "6.prems"(1) obtain st1 where
    a: "extract_used_attributes_recursive arg (MethodDictRef r) class_name st = Inr st1" and
    b: "extract_used_args rest (MethodDictRef r) class_name st1 = Inr st'"
    by (auto split: sum.splits)
  show ?case
  proof (cases "a = arg")
    case True
    then have "recorded e (method_store st1 r)" using "6.hyps"(1) a "6.prems"(3) by blast
    then show ?thesis using extract_used_le(2) [OF b] recorded_state_le by blast
  next
    case False
    then have "a \<in> set rest" using "6.prems"(2) by simp
    then show ?thesis using "6.hyps"(2) [OF a b] "6.prems"(3) by blast
  qed
qed


lemma self_attributes_loop_le:
  "self_attributes_loop ts d cn st = Inr st' \<Longrightarrow> state_le st st'"
proof (induction ts arbitrary: st)
  case Nil
  then show ?case by (simp add: state_le_refl)
next
  case (Cons t rest)
  show ?case
  proof (cases t)
    case (AssignAttr ex attr_name inferred)
    with Cons.prems obtain ty st1 st2 where
      a: "add_attribute cn (attr_name, ty) st = Inr st1" and
      b: "add_accessed_attribute d attr_name st1 = Inr st2" and
      c: "self_attributes_loop rest d cn st2 = Inr st'"
      by (auto split: sum.splits)
    show ?thesis
      using add_attribute_le [OF a] add_accessed_attribute_le [OF b] Cons.IH [OF c] state_le_trans
      by blast
  qed (use Cons in auto)
qed

lemma method_body_loop_le:
  "method_body_loop body d cn st = Inr st' \<Longrightarrow> state_le st st'"
proof (induction body arbitrary: st)
  case Nil
  then show ?case by (simp add: state_le_refl)
next
  case (Cons s rest)
  show ?case
  proof (cases s)
    case (Assign ts v)
    with Cons.prems obtain st1 st2 where
      a: "self_attributes_loop ts d cn st = Inr st1" and
      b: "extract_used_attributes_recursive v d cn st1 = Inr st2" and
      c: "method_body_loop rest d cn st2 = Inr st'"
      by (auto split: sum.splits)
    show ?thesis
      using self_attributes_loop_le [OF a] extract_used_le(1) [OF b] Cons.IH [OF c] state_le_trans
      by blast
  next
    case (Expr v)
    with Cons.prems obtain st1 where
      a: "extract_used_attributes_recursive v d cn st = Inr st1" and
      b: "method_body_loop rest d cn st1 = Inr st'"
      by (auto split: sum.splits)
    show ?thesis
      using extract_used_le(1) [OF a] Cons.IH [OF b] state_le_trans by blast
  qed (use Cons in auto)
qed

lemma method_body_loop_records:
  "method_body_loop body (MethodDictRef r) cn st = Inr st' \<Longrightarrow>
     Expr v \<in> set body \<or> Assign ts v \<in> set body \<Longrightarrow>
     e \<in> set (walked v) \<Longrightarrow> recorded e (method_store st' r)"
proof (induction body arbitrary: st)
  case Nil
  then show ?case by simp
next
  case (Cons s rest)
  show ?case
  proof (cases s)
    case (Assign ts' v')
    with Cons.prems(1) obtain st1 st2 where
      a: "self_attributes_loop ts' (MethodDictRef r) cn st = Inr st1" and
      b: "extract_used_attributes_recursive v' (MethodDictRef r) cn st1 = Inr st2" and
      c: "method_body_loop rest (MethodDictRef r) cn st2 = Inr st'"
      by (auto split: sum.splits)
    show ?thesis
    proof (cases "v' = v")
      case True
      then have "recorded e (method_store st2 r)"
        using extract_used_records(1) [OF b] Cons.prems(3) by simp
      then show ?thesis using method_body_loop_le [OF c] recorded_state_le by blast
    next
      case False
      then have "Expr v \<in> set rest \<or> Assign ts v \<in> set rest"
        using Cons.prems(2) Assign by auto
      then show ?thesis using Cons.IH [OF c] Cons.prems(3) by blast
    qed
  next
    case (Expr v')
    with Cons.prems(1) obtain st1 where
      a: "extract_used_attributes_recursive v' (MethodDictRef r) cn st = Inr st1" and
      b: "method_body_loop rest (MethodDictRef r) cn st1 = Inr st'"
      by (auto split: sum.splits)
    show ?thesis
    proof (cases "v' = v")
      case True
      then have "recorded e (method_store st1 r)"
        using extract_used_records(1) [OF a] Cons.prems(3) by simp
      then show ?thesis using method_body_loop_le [OF b] recorded_state_le by blast
    next
      case False
      then have "Expr v \<in> set rest \<or> Assign ts v \<in> set rest"
        using Cons.prems(2) Expr by auto
      then show ?thesis using Cons.IH [OF b] Cons.prems(3) by blast
    qed
  qed (use Cons in auto)
qed

lemma extract_methods_steps:
  assumes "extract_methods (FunctionDef mn k body) cn st = Inr st'"
  obtains l st3 where
    "method_body_loop body (MethodDictRef METHOD_INIT) cn
       (st\<lparr>method_store := (method_store st)
          (METHOD_INIT := (method_store st METHOD_INIT)
             \<lparr>m_lloc := l, m_number_of_parameters := k\<rparr>)\<rparr>) = Inr st3"
    "set_method cn mn METHOD_INIT st3 = Inr st'"
  using assms by (auto simp: Let_def split: sum.splits)

lemma set_lloc_le:
  "state_le st (st\<lparr>method_store := (method_store st)
      (r := (method_store st r)\<lparr>m_lloc := l, m_number_of_parameters := k\<rparr>)\<rparr>)"
  by (simp add: state_le_def method_dict_le_def)

lemma extract_methods_le:
  assumes "extract_methods s cn st = Inr st'"
  shows "state_le st st'"
proof (cases s)
  case (FunctionDef mn k body)
  with assms obtain l st3 where
    a: "method_body_loop body (MethodDictRef METHOD_INIT) cn
       (st\<lparr>method_store := (method_store st)
          (METHOD_INIT := (method_store st METHOD_INIT)
             \<lparr>m_lloc := l, m_number_of_parameters := k\<rparr>)\<rparr>) = Inr st3" and
    b: "set_method cn mn METHOD_INIT st3 = Inr st'"
    using extract_methods_steps by blast
  show ?thesis
    using set_lloc_le method_body_loop_le [OF a] set_method_le [OF b] state_le_trans by blast
qed (use assms in auto)

lemma set_method_sets:
  "set_method cn mn r st = Inr st' \<Longrightarrow> classes st cn = Some c \<Longrightarrow>
     methods (class_store st' c) mn = Some r \<and> method_store st' = method_store st"
  by (auto simp: set_method_def update_class_def split: option.splits)

lemma state_le_classes:
  "state_le st st' \<Longrightarrow> classes st n = Some CLASS_INIT \<Longrightarrow> classes st' n = Some CLASS_INIT"
  by (simp add: state_le_def)

lemma state_le_methods:
  "state_le st st' \<Longrightarrow> methods (class_store st CLASS_INIT) n = Some METHOD_INIT \<Longrightarrow>
     methods (class_store st' CLASS_INIT) n = Some METHOD_INIT"
  by (simp add: state_le_def)

lemma extract_methods_records:
  assumes "extract_methods (FunctionDef mn k body) cn st = Inr st'"
    and "classes st cn = Some CLASS_INIT"
    and "Expr v \<in> set body \<or> Assign ts v \<in> set body"
    and "e \<in> set (walked v)"
  shows "methods (class_store st' CLASS_INIT) mn = Some METHOD_INIT \<and>
         recorded e (method_store st' METHOD_INIT)"
proof -
  from assms(1) obtain l st3 where
    a: "method_body_loop body (MethodDictRef METHOD_INIT) cn
       (st\<lparr>method_store := (method_store st)
          (METHOD_INIT := (method_store st METHOD_INIT)
             \<lparr>m_lloc := l, m_number_of_parameters := k\<rparr>)\<rparr>) = Inr st3" and
    b: "set_method cn mn METHOD_INIT st3 = Inr st'"
    using extract_methods_steps by blast
  have r: "recorded e (method_store st3 METHOD_INIT)"
    using method_body_loop_records [OF a assms(3) assms(4)] .
  have "state_le st st3" using set_lloc_le method_body_loop_le [OF a] state_le_trans by blast
  then have "classes st3 cn = Some CLASS_INIT" using assms(2) state_le_classes by blast
  then show ?thesis using set_method_sets [OF b] r by simp
qed

lemma variables_loop_le:
  "variables_loop ts cn st = Inr st' \<Longrightarrow> state_le st st'"
proof (induction ts arbitrary: st)
  case Nil
  then show ?case by (simp add: state_le_refl)
next
  case (Cons t rest)
  from Cons.prems obtain x st1 where
    a: "add_variable cn x st = Inr st1" and b: "variables_loop rest cn st1 = Inr st'"
    by (auto split: sum.splits)
  show ?case using add_variable_le [OF a] Cons.IH [OF b] state_le_trans by blast
qed

lemma class_body_loop_le:
  "class_body_loop cbody cn st = Inr st' \<Longrightarrow> state_le st st'"
proof (induction cbody arbitrary: st)
  case Nil
  then show ?case by (simp add: state_le_refl)
next
  case (Cons s rest)
  show ?case
  proof (cases s)
    case (Assign ts v)
    with Cons.prems obtain st1 st2 where
      a: "variables_loop ts cn st = Inr st1" and
      b: "extract_used_attributes_recursive v (NodeArg (Assign ts v)) cn st1 = Inr st2" and
      c: "class_body_loop rest cn st2 = Inr st'"
      by (auto split: sum.splits)
    show ?thesis
      using variables_loop_le [OF a] extract_used_le(1) [OF b] Cons.IH [OF c] state_le_trans
      by blast
  next
    case (Expr v)
    with Cons.prems obtain st1 where
      a: "extract_used_attributes_recursive v (NodeArg (Expr v)) cn st = Inr st1" and
      b: "class_body_loop rest cn st1 = Inr st'"
      by (auto split: sum.splits)
    show ?thesis using extract_used_le(1) [OF a] Cons.IH [OF b] state_le_trans by blast
  next
    case (FunctionDef n k b)
    with Cons.prems obtain st1 where
      a: "extract_methods (FunctionDef n k b) cn st = Inr st1" and
      b: "class_body_loop rest cn st1 = Inr st'"
      by (auto split: sum.splits)
    show ?thesis using extract_methods_le [OF a] Cons.IH [OF b] state_le_trans by blast
  qed (use Cons in auto)
qed

lemma class_body_loop_records:
  "class_body_loop cbody cn st = Inr st' \<Longrightarrow> classes st cn = Some CLASS_INIT \<Longrightarrow>
     FunctionDef mn k body \<in> set cbody \<Longrightarrow>
     Expr v \<in> set body \<or> Assign ts v \<in> set body \<Longrightarrow> e \<in> set (walked v) \<Longrightarrow>
     methods (class_store st' CLASS_INIT) mn = Some METHOD_INIT \<and>
     recorded e (method_store st' METHOD_INIT)"
proof (induction cbody arbitrary: st)
  case Nil
  then show ?case by simp
next
  case (Cons s rest)
  have le: "state_le st st'" using Cons.prems(1) by (rule class_body_loop_le)
  show ?case
  proof (cases "s = FunctionDef mn k body")
    case True
    with Cons.prems(1) obtain st1 where
      a: "extract_methods (FunctionDef mn k body) cn st = Inr st1" and
      b: "class_body_loop rest cn st1 = Inr st'"
      by (auto split: sum.splits)
    have "methods (class_store st1 CLASS_INIT) mn = Some METHOD_INIT \<and>
          recorded e (method_store st1 METHOD_INIT)"
      using extract_methods_records [OF a Cons.prems(2) Cons.prems(4) Cons.prems(5)] .
    then show ?thesis
      using class_body_loop_le [OF b] state_le_methods recorded_state_le by blast
  next
    case False
    then have mem: "FunctionDef mn k body \<in> set rest" using Cons.prems(3) by simp
    obtain st1 where
      a: "state_le st st1" and b: "class_body_loop rest cn st1 = Inr st'"
    proof (cases s)
      case (Assign ts' v')
      with Cons.prems(1) obtain sa sb where
        "variables_loop ts' cn st = Inr sa"
        "extract_used_attributes_recursive v' (NodeArg (Assign ts' v')) cn sa = Inr sb"
        "class_body_loop rest cn sb = Inr st'"
        by (auto split: sum.splits)
      then show ?thesis
        using that variables_loop_le extract_used_le(1) state_le_trans by blast
    next
      case (Expr v')
      with Cons.prems(1) obtain sa where
        "extract_used_attributes_recursive v' (NodeArg (Expr v')) cn st = Inr sa"
        "class_body_loop rest cn sa = Inr st'"
        by (auto split: sum.splits)
      then show ?thesis using that extract_used_le(1) by blast
    next
      case (FunctionDef n' k' b')
      with Cons.prems(1) obtain sa where
        "extract_methods (FunctionDef n' k' b') cn st = Inr sa"
        "class_body_loop rest cn sa = Inr st'"
        by (auto split: sum.splits)
      then show ?thesis using that extract_methods_le by blast
    qed (use Cons.prems(1) that state_le_refl in auto)
    have "classes st1 cn = Some CLASS_INIT" using a Cons.prems(2) state_le_classes by blast
    then show ?thesis using Cons.IH [OF b _ mem Cons.prems(4) Cons.prems(5)] by simp
  qed
qed

lemma extract_inheritance_le:
  "extract_inheritance b cn st = Inr st' \<Longrightarrow> state_le st st'"
  by (cases b)
     (auto simp: Let_def update_class_def state_le_def method_dict_le_def
        split: if_splits option.splits)

lemma bases_loop_le:
  "bases_loop bs cn st = Inr st' \<Longrightarrow> state_le st st'"
proof (induction bs arbitrary: st)
  case Nil
  then show ?case by (simp add: state_le_refl)
next
  case (Cons b rest)
  show ?case
  proof (cases b)
    case (Name x)
    with Cons.prems obtain st1 where
      a: "extract_inheritance (Name x) cn st = Inr st1" and
      b: "bases_loop rest cn st1 = Inr st'"
      by (auto split: sum.splits)
    show ?thesis using extract_inheritance_le [OF a] Cons.IH [OF b] state_le_trans by blast
  qed (use Cons in auto)
qed

lemma set_class_le: "state_le st (st\<lparr>classes := (classes st)(cn \<mapsto> CLASS_INIT)\<rparr>)"
  by (simp add: state_le_def method_dict_le_def)

lemma module_body_loop_le:
  "module_body_loop mbody st = Inr st' \<Longrightarrow> state_le st st'"
proof (induction mbody arbitrary: st)
  case Nil
  then show ?case by (simp add: state_le_refl)
next
  case (Cons s rest)
  show ?case
  proof (cases s)
    case (ClassDef cn bases cbody)
    with Cons.prems obtain st2 st3 where
      a: "class_body_loop cbody cn (st\<lparr>classes := (classes st)(cn \<mapsto> CLASS_INIT)\<rparr>) = Inr st2" and
      b: "bases_loop bases cn st2 = Inr st3" and
      c: "module_body_loop rest st3 = Inr st'"
      by (auto simp: Let_def split: sum.splits)
    show ?thesis
      using set_class_le class_body_loop_le [OF a] bases_loop_le [OF b] Cons.IH [OF c]
        state_le_trans by blast
  qed (use Cons in auto)
qed

lemma module_body_loop_records:
  "module_body_loop mbody st = Inr st' \<Longrightarrow> ClassDef cn bases cbody \<in> set mbody \<Longrightarrow>
     FunctionDef mn k body \<in> set cbody \<Longrightarrow>
     Expr v \<in> set body \<or> Assign ts v \<in> set body \<Longrightarrow> e \<in> set (walked v) \<Longrightarrow>
     classes st' cn = Some CLASS_INIT \<and>
     methods (class_store st' CLASS_INIT) mn = Some METHOD_INIT \<and>
     recorded e (method_store st' METHOD_INIT)"
proof (induction mbody arbitrary: st)
  case Nil
  then show ?case by simp
next
  case (Cons s rest)
  show ?case
  proof (cases "s = ClassDef cn bases cbody")
    case True
    with Cons.prems(1) obtain st2 st3 where
      a: "class_body_loop cbody cn (st\<lparr>classes := (classes st)(cn \<mapsto> CLASS_INIT)\<rparr>) = Inr st2" and
      b: "bases_loop bases cn st2 = Inr st3" and
      c: "module_body_loop rest st3 = Inr st'"
      by (auto simp: Let_def split: sum.splits)
    have "methods (class_store st2 CLASS_INIT) mn = Some METHOD_INIT \<and>
          recorded e (method_store st2 METHOD_INIT)"
      using class_body_loop_records [OF a _ Cons.prems(3) Cons.prems(4) Cons.prems(5)] by simp
    moreover have "classes st2 cn = Some CLASS_INIT"
      using class_body_loop_le [OF a] state_le_classes by fastforce
    moreover have "state_le st2 st'"
      using bases_loop_le [OF b] module_body_loop_le [OF c] state_le_trans by blast
    ultimately show ?thesis
      using state_le_classes state_le_methods recorded_state_le by blast
  next
    case False
    then have mem: "ClassDef cn bases cbody \<in> set rest" using Cons.prems(2) by simp
    obtain st1 where b: "module_body_loop rest st1 = Inr st'"
    proof (cases s)
      case (ClassDef cn' bases' cbody')
      with Cons.prems(1) show ?thesis using that by (auto simp: Let_def split: sum.splits)
    qed (use Cons.prems(1) that in auto)
    show ?thesis using Cons.IH [OF b mem Cons.prems(3) Cons.prems(4) Cons.prems(5)] .
  qed
qed

subsection \<open>The attribute rule, given a method dictionary\<close>

lemma attribute_rule_method_dict:
  assumes "classes st class_name = Some c"
  shows "\<exists>st'. extract_used_attributes_recursive (Attribute ex attrname) (MethodDictRef r)
            class_name st = Inr st' \<and>
          (if as_string ex \<noteq> ''self''
           then coupled_classes (class_store st' c) =
                  insert (as_string ex) (coupled_classes (class_store st c)) \<and>
                m_accessed_attributes (method_store st' r) =
                  insert (as_string ex @ ''.'' @ attrname)
                    (m_accessed_attributes (method_store st r))
           else class_store st' = class_store st \<and>
                m_accessed_attributes (method_store st' r) =
                  insert attrname (m_accessed_attributes (method_store st r)))"
  using assms by (simp add: add_coupled_class_def update_class_def Let_def)

subsection \<open>Claims about the registry\<close>

text \<open>
  C1. The specification asks for an independent record per class and per method. On the two-class
  module the extraction succeeds, both class names refer to the one dictionary
  \<open>CLASS_INIT\<close>, the record read under \<open>B\<close> holds the methods and the attribute of
  \<open>A\<close>, and the record read for method \<open>f\<close> holds the line count and the parameter
  count of \<open>g\<close>.
\<close>

theorem shared_record_aliasing:
  "(\<exists>st. extract_code_data aliasing_module init_state = Inr st \<and>
      classes st ''A'' = Some CLASS_INIT \<and> classes st ''B'' = Some CLASS_INIT) \<and>
   (\<exists>c. class_record (extract_code_data aliasing_module init_state) ''B'' = Some c \<and>
      methods c ''f'' = Some METHOD_INIT \<and> methods c ''g'' = Some METHOD_INIT \<and>
      (''x'', Some ''builtins.int'') \<in> attributes c) \<and>
   (\<exists>m. method_record (extract_code_data aliasing_module init_state) ''A'' ''f'' = Some m \<and>
      m_lloc m = 2 \<and> m_number_of_parameters m = 2)"
  by (simp add: extraction_defs aliasing_module_def)

text \<open>
  C2. The specification says that extraction never raises on a valid module. A class body with a
  call in an assignment raises \<open>TypeError\<close>, and so does the test input of the source
  file; a class body with an attribute target raises \<open>AttributeError\<close>.
\<close>

theorem class_body_statements_raise:
  "extract_code_data class_body_call_module init_state = Inl TypeError \<and>
   extract_code_data main_test_module init_state = Inl TypeError \<and>
   extract_code_data class_body_attribute_target_module init_state = Inl AttributeError"
  by (simp add: extraction_defs class_body_call_module_def main_test_module_def
      class_body_attribute_target_module_def)

text \<open>
  C3, as stated, fails: on the round-trip scenario the record of \<open>MyClass\<close> does not
  have \<open>UsedClass\<close> in \<open>coupled_classes\<close> together with the key
  \<open>UsedClassAttribute.used_attr\<close> in the method's \<open>accessed_attributes\<close>.
\<close>

theorem round_trip_scenario_counterexample:
  "\<not> (\<exists>c m. class_record (extract_code_data scenario_module init_state) ''MyClass'' = Some c \<and>
      ''UsedClass'' \<in> coupled_classes c \<and>
      method_record (extract_code_data scenario_module init_state) ''MyClass'' ''my_method''
        = Some m \<and>
      ''UsedClassAttribute.used_attr'' \<in> m_accessed_attributes m)"
  by (simp add: extraction_defs scenario_module_def)

text \<open>
  C3, amended. On the round-trip scenario the extraction succeeds; the record of
  \<open>MyClass\<close> has the receiver's text \<open>self.UsedClassAttribute\<close> in \<open>coupled_classes\<close>,
  so its size is at least 1, and not \<open>UsedClass\<close>; the method's \<open>accessed_attributes\<close>
  holds \<open>instance_variable\<close> and the key \<open>self.UsedClassAttribute.used_attr\<close>, and not
  \<open>UsedClassAttribute.used_attr\<close>.
\<close>

theorem round_trip_scenario_receiver_text:
  "\<exists>c m. class_record (extract_code_data scenario_module init_state) ''MyClass'' = Some c \<and>
     ''self.UsedClassAttribute'' \<in> coupled_classes c \<and> 1 \<le> card (coupled_classes c) \<and>
     ''UsedClass'' \<notin> coupled_classes c \<and>
     method_record (extract_code_data scenario_module init_state) ''MyClass'' ''my_method''
       = Some m \<and>
     ''instance_variable'' \<in> m_accessed_attributes m \<and>
     ''self.UsedClassAttribute.used_attr'' \<in> m_accessed_attributes m \<and>
     ''UsedClassAttribute.used_attr'' \<notin> m_accessed_attributes m"
  by (simp add: extraction_defs scenario_module_def)

text \<open>
  C4. The specification asks for \<open>direct_children\<close> 1 for \<open>MyParent\<close> and 1 for
  \<open>MySuperParent\<close>. On the inheritance chain the inheritance map is as specified, and the
  counter read under each of the three class names is 2.
\<close>

theorem inheritance_chain_direct_children:
  "\<exists>st. extract_code_data inheritance_chain_module init_state = Inr st \<and>
     map_option direct_children (class_record (Inr st) ''MyParent'') = Some 2 \<and>
     map_option direct_children (class_record (Inr st) ''MySuperParent'') = Some 2 \<and>
     map_option direct_children (class_record (Inr st) ''MyClass'') = Some 2 \<and>
     inheritances st ''MyParent'' = Some ''MySuperParent'' \<and>
     inheritances st ''MyClass'' = Some ''MyParent'' \<and>
     inheritances st ''MySuperParent'' = None"
  by (simp add: extraction_defs inheritance_chain_module_def)

text \<open>
  C5. The specification asks that a second definition of a class name replaces the record. After
  the module that defines \<open>A\<close> twice, the record of \<open>A\<close> still holds the method, the
  attribute and the coupling of the first definition, although the second definition
  has an empty body.
\<close>

theorem redefinition_keeps_old_facts:
  "\<exists>c. class_record (extract_code_data redefinition_module init_state) ''A'' = Some c \<and>
     methods c ''f'' = Some METHOD_INIT \<and>
     (''x'', Some ''builtins.int'') \<in> attributes c \<and>
     ''Other'' \<in> coupled_classes c"
  by (simp add: extraction_defs redefinition_module_def)

subsection \<open>Claims about the walk\<close>

text \<open>
  C6, as stated, fails. In method \<open>m\<close> the call \<open>helper()\<close> inside the conditional and
  the access \<open>self.x\<close> inside the return statement are not recorded; of the statement
  \<^verbatim>\<open>self.obj.run(self.a.b)\<close> the call and its argument are recorded, and the accesses
  \<open>self.obj\<close> (receiver of the call target), \<open>self.obj.run\<close> (the call target) and
  \<open>self.a\<close> (receiver of the argument) are not.
\<close>

theorem walk_completeness_counterexample:
  "\<exists>m. method_record (extract_code_data unvisited_module init_state) ''C'' ''m'' = Some m \<and>
     m_called m = {''self.obj.run''} \<and> m_accessed_attributes m = {''self.a.b''} \<and>
     ''helper'' \<notin> m_called m \<and> ''x'' \<notin> m_accessed_attributes m \<and>
     ''obj'' \<notin> m_accessed_attributes m \<and> ''self.obj.run'' \<notin> m_accessed_attributes m \<and>
     ''a'' \<notin> m_accessed_attributes m"
  by (simp add: extraction_defs unvisited_module_def)

text \<open>
  C6, amended. When the extraction of a module succeeds, then for every method of every
  class of the module and every expression statement or assignment that stands directly
  in the method's body, each node visited from the statement's value (the value and,
  through calls, their positional arguments) is recorded in the method's record: a call
  in \<open>called\<close>, an attribute access in \<open>accessed_attributes\<close>.
\<close>

theorem walk_records_statement_values:
  assumes "extract_code_data (Module mbody) st = Inr st'"
    and "ClassDef class_name bases cbody \<in> set mbody"
    and "FunctionDef method_name k body \<in> set cbody"
    and "Expr v \<in> set body \<or> Assign targets v \<in> set body"
    and "e \<in> set (walked v)"
  shows "\<exists>m. method_record (Inr st') class_name method_name = Some m \<and> recorded e m"
proof -
  have "module_body_loop mbody st = Inr st'"
    using assms(1)
    by (auto simp: extract_code_data_def translate_attributes_to_classes_def split: sum.splits)
  then show ?thesis
    using module_body_loop_records [OF _ assms(2) assms(3) assms(4) assms(5)] by simp
qed

theorem walk_records_statement_values_witness:
  "\<exists>st'. extract_code_data unvisited_module init_state = Inr st' \<and>
     (\<exists>m. method_record (Inr st') ''C'' ''m'' = Some m \<and>
        ''self.obj.run'' \<in> m_called m \<and> ''self.a.b'' \<in> m_accessed_attributes m)"
proof -
  let ?e = "Attribute (Attribute (Name ''self'') ''a'') ''b''"
  let ?v = "Call (Attribute (Attribute (Name ''self'') ''obj'') ''run'') [?e]"
  let ?body = "[Expr ?v, If_stmt (Name ''flag'') [Expr (Call (Name ''helper'') [])] [],
      Return (Some (Attribute (Name ''self'') ''x''))]"
  let ?cbody = "[Assign [TupleTarget [AssignName ''a'', AssignName ''b'']] (Name ''pair''),
      FunctionDef ''m'' 1 ?body]"
  let ?mbody = "[ClassDef ''C'' [] ?cbody]"
  have eq: "unvisited_module = Module ?mbody"
    by (simp add: unvisited_module_def)
  obtain st' where run: "extract_code_data (Module ?mbody) init_state = Inr st'"
    by (simp add: extraction_defs)
  have m1: "ClassDef ''C'' [] ?cbody \<in> set ?mbody" by simp
  have m2: "FunctionDef ''m'' 1 ?body \<in> set ?cbody" by simp
  have m3: "Expr ?v \<in> set ?body \<or> Assign [] ?v \<in> set ?body" by simp
  have m4: "?e \<in> set (walked ?v)" by simp
  have m5: "?v \<in> set (walked ?v)" by simp
  have "\<exists>m. method_record (Inr st') ''C'' ''m'' = Some m \<and> recorded ?e m"
    using walk_records_statement_values [OF run m1 m2 m3 m4] .
  moreover have "\<exists>m. method_record (Inr st') ''C'' ''m'' = Some m \<and> recorded ?v m"
    using walk_records_statement_values [OF run m1 m2 m3 m5] .
  ultimately have "\<exists>m. method_record (Inr st') ''C'' ''m'' = Some m \<and>
      ''self.obj.run'' \<in> m_called m \<and> ''self.a.b'' \<in> m_accessed_attributes m"
    by (auto simp: isdigit_def)
  then show ?thesis using run eq by simp
qed

text \<open>
  C9. The specification says that every visited attribute access is recorded. From a class body the
  walk is given the statement node in place of a dictionary: for
  \<^verbatim>\<open>class C: x = Other.attr\<close> it raises \<open>TypeError\<close> and records nothing.
\<close>

theorem class_body_attribute_access_raises:
  "extract_code_data class_body_attribute_module init_state = Inl TypeError"
  by (simp add: extraction_defs class_body_attribute_module_def)

end
